theory Spec2Isabelle
  imports Main "HOL-Library.Sublist"
begin

section \<open>Upgrade plan info: parsing and validation (package planinfo)\<close>

text \<open>
  The development follows the Go package \<open>planinfo\<close>: \<open>ParsePlanInfo\<close>,
  \<open>PlanInfo.ValidateFull\<close>, \<open>BinaryDownloadURLMap.ValidateBasic\<close> and
  \<open>BinaryDownloadURLMap.CheckURLs\<close>. Strings are byte lists, as Go strings are.
\<close>

subsection \<open>Errors\<close>

text \<open>
  A Go \<open>error\<close> is a message and, when it was built by \<open>fmt.Errorf\<close> with the verb
  \<open>%w\<close>, the error it wraps. \<open>errors.New\<close> and \<open>fmt.Errorf\<close> with \<open>%v\<close> wrap nothing.
\<close>

datatype error = Error (message: string) (unwrap: "error option")

definition errors_New :: "string \<Rightarrow> error" where
  "errors_New text = Error text None"

subsection \<open>Regular expressions (package regexp)\<close>

text \<open>
  The fragment of the regular expression syntax that \<open>osArchRx\<close> uses, with the
  matcher by derivatives. \<open>Class\<close> is a bracket expression given by its ranges.
\<close>

datatype rx =
    Zero
  | One
  | Lit char
  | Class "(char \<times> char) list"
  | Alt rx rx
  | Seq rx rx
  | Star rx

definition in_range :: "char \<Rightarrow> char \<times> char \<Rightarrow> bool" where
  "in_range c r = ((of_char (fst r) :: nat) \<le> of_char c \<and> (of_char c :: nat) \<le> of_char (snd r))"

definition in_class :: "(char \<times> char) list \<Rightarrow> char \<Rightarrow> bool" where
  "in_class rs c = list_ex (in_range c) rs"

fun nullable :: "rx \<Rightarrow> bool" where
  "nullable Zero = False"
| "nullable One = True"
| "nullable (Lit a) = False"
| "nullable (Class rs) = False"
| "nullable (Alt r s) = (nullable r \<or> nullable s)"
| "nullable (Seq r s) = (nullable r \<and> nullable s)"
| "nullable (Star r) = True"

fun deriv :: "char \<Rightarrow> rx \<Rightarrow> rx" where
  "deriv c Zero = Zero"
| "deriv c One = Zero"
| "deriv c (Lit a) = (if c = a then One else Zero)"
| "deriv c (Class rs) = (if in_class rs c then One else Zero)"
| "deriv c (Alt r s) = Alt (deriv c r) (deriv c s)"
| "deriv c (Seq r s) =
     (if nullable r then Alt (Seq (deriv c r) s) (deriv c s) else Seq (deriv c r) s)"
| "deriv c (Star r) = Seq (deriv c r) (Star r)"

text \<open>\<open>r+\<close> is \<open>rr*\<close>.\<close>

definition Plus :: "rx \<Rightarrow> rx" where
  "Plus r = Seq r (Star r)"

text \<open>The whole string is a match of the expression.\<close>

fun matches :: "rx \<Rightarrow> string \<Rightarrow> bool" where
  "matches r [] = nullable r"
| "matches r (c # cs) = matches (deriv c r) cs"

text \<open>
  \<open>Regexp.MatchString\<close> reports whether the string contains any match of the
  expression: some substring of it is a match.
\<close>

definition MatchString :: "rx \<Rightarrow> string \<Rightarrow> bool" where
  "MatchString r s = list_ex (\<lambda>t. list_ex (matches r) (prefixes t)) (suffixes s)"

text \<open>\<open>[a-zA-Z0-9]\<close>\<close>

definition alnum :: rx where
  "alnum = Class [(CHR ''a'', CHR ''z''), (CHR ''A'', CHR ''Z''), (CHR ''0'', CHR ''9'')]"

text \<open>\<open>osArchRx = regexp.MustCompile(`[a-zA-Z0-9]+/[a-zA-Z0-9]+`)\<close>\<close>

definition osArchRx :: rx where
  "osArchRx = Seq (Plus alnum) (Seq (Lit (CHR ''/'')) (Plus alnum))"

text \<open>
  The spec's rule for a platform key, in the spec's words: the key is the literal
  \<open>any\<close>, or it matches the anchored pattern \<open>^[a-zA-Z0-9]+/[a-zA-Z0-9]+$\<close>, that is, the
  whole key is a match of the expression. \<open>ValidateBasic\<close> does not use this definition;
  the properties compare the two.
\<close>

definition spec_key_ok :: "string \<Rightarrow> bool" where
  "spec_key_ok key = (key = ''any'' \<or> matches osArchRx key)"

text \<open>The characters of \<open>[a-zA-Z0-9]\<close>.\<close>

definition is_alnum :: "char \<Rightarrow> bool" where
  "is_alnum c = in_class [(CHR ''a'', CHR ''z''), (CHR ''A'', CHR ''Z''), (CHR ''0'', CHR ''9'')] c"

text \<open>The set of strings an expression denotes, against which the matcher is verified.\<close>

fun lang :: "rx \<Rightarrow> string set" where
  "lang Zero = {}"
| "lang One = {[]}"
| "lang (Lit a) = {[a]}"
| "lang (Class rs) = {[c] | c. in_class rs c}"
| "lang (Alt r s) = lang r \<union> lang s"
| "lang (Seq r s) = {u @ v | u v. u \<in> lang r \<and> v \<in> lang s}"
| "lang (Star r) = {concat ws | ws. set ws \<subseteq> lang r}"

subsection \<open>The data model\<close>

text \<open>
  \<open>BinaryDownloadURLMap\<close> is a Go \<open>map[string]string\<close>. It is represented by its
  entries in the order in which a \<open>range\<close> statement visits them; the keys of a map are
  distinct. Go does not fix the order of a \<open>range\<close> over a map, so two lists with the
  same entries in different orders are two runs over the same map.
\<close>

type_synonym BinaryDownloadURLMap = "(string \<times> string) list"

definition is_map :: "BinaryDownloadURLMap \<Rightarrow> bool" where
  "is_map m = distinct (map fst m)"

record PlanInfo =
  Binaries :: BinaryDownloadURLMap

subsection \<open>The world outside the package\<close>

text \<open>
  The filesystem is the list of the paths that exist; \<open>net\<close> stands for everything else
  the operating system and the network hold. \<open>trace\<close> records, in order, the calls that
  reach the operating system or the network, with their arguments (and, for
  \<open>DownloadUpgrade\<close> and \<open>os.RemoveAll\<close>, the error returned); nothing but these calls
  extends it.
\<close>

datatype call =
    MkdirTempCall string string
  | RemoveAllCall string "error option"
  | DownloadUpgradeCall string string string "error option"
  | DownloadPlanInfoFromURLCall string

record 'n world =
  files :: "string list"
  net :: 'n
  trace :: "call list"

type_synonym 'n sys = "string list \<times> 'n"

text \<open>
  The functions of the Go standard library and of the package's downloader that the
  code calls. \<open>url_Parse\<close> gives the error of \<open>net/url.Parse\<close>, if any; the functions
  with effects transform the filesystem and the rest of the system. \<open>os_removable\<close> says
  whether the operating system lets the process remove a path (its permissions, its
  mount), once the path has no children left. \<open>json_Marshal\<close> is the serialization
  that the round-trip property speaks of; the package itself never calls it.
\<close>

record 'n env =
  strings_TrimSpace :: "string \<Rightarrow> string"
  url_Parse :: "string \<Rightarrow> error option"
  json_Marshal :: "PlanInfo \<Rightarrow> string"
  json_Unmarshal :: "string \<Rightarrow> error + PlanInfo"
  filepath_Join :: "string \<Rightarrow> string \<Rightarrow> string"
  os_MkdirTemp :: "string \<Rightarrow> string \<Rightarrow> 'n sys \<Rightarrow> (error + string) \<times> 'n sys"
  os_removable :: "'n sys \<Rightarrow> string \<Rightarrow> bool"
  DownloadUpgrade :: "string \<Rightarrow> string \<Rightarrow> string \<Rightarrow> 'n sys \<Rightarrow> error option \<times> 'n sys"
  DownloadPlanInfoFromURL :: "string \<Rightarrow> 'n sys \<Rightarrow> (error + string) \<times> 'n sys"

definition sys_of :: "'n world \<Rightarrow> 'n sys" where
  "sys_of w = (files w, net w)"

definition set_sys :: "'n sys \<Rightarrow> 'n world \<Rightarrow> 'n world" where
  "set_sys s w = w\<lparr>files := fst s, net := snd s\<rparr>"

subsection \<open>ValidateBasic\<close>

text \<open>
  The body of the \<open>range\<close> loop of \<open>ValidateBasic\<close>, over the entries still to visit.
  \<open>None\<close> is Go's \<open>nil\<close> error.
\<close>

fun ValidateBasic_range :: "'n env \<Rightarrow> BinaryDownloadURLMap \<Rightarrow> error option" where
  "ValidateBasic_range E [] = None"
| "ValidateBasic_range E ((key, val) # rest) =
     (if key \<noteq> ''any'' \<and> \<not> MatchString osArchRx key
      then Some (Error (''invalid os/arch format in key \"'' @ key @ ''\"'') None)
      else case url_Parse E val of
             Some err \<Rightarrow>
               Some (Error (''invalid url \"'' @ val @ ''\" in binaries['' @ key @ '']: ''
                            @ message err) None)
           | None \<Rightarrow> ValidateBasic_range E rest)"

definition ValidateBasic :: "'n env \<Rightarrow> BinaryDownloadURLMap \<Rightarrow> error option" where
  "ValidateBasic E m =
     (if length m = 0 then Some (errors_New ''no \"binaries\" entries found'')
      else ValidateBasic_range E m)"

subsection \<open>CheckURLs\<close>

text \<open>
  \<open>strings.ReplaceAll\<close>: every non-overlapping instance of \<open>old\<close> replaced by \<open>new\<close>,
  from the left. For an empty \<open>old\<close> Go inserts \<open>new\<close> before the string and after each
  character (here: each byte).
\<close>

function strings_ReplaceAll :: "string \<Rightarrow> string \<Rightarrow> string \<Rightarrow> string" where
  "strings_ReplaceAll s old new =
     (if old = [] then new @ concat (map (\<lambda>c. c # new) s)
      else if s = [] then []
      else if prefix old s then new @ strings_ReplaceAll (drop (length old) s) old new
      else hd s # strings_ReplaceAll (tl s) old new)"
  by pat_completeness auto
termination
  by (relation "measure (\<lambda>(s, old, new). length s)") auto

declare strings_ReplaceAll.simps [simp del]

text \<open>
  \<open>os.RemoveAll\<close> removes the path and any children it contains; it removes everything
  it can and returns the first error it meets. A path that the system does not let go
  stays, and so does every directory above it. An empty path is accepted and nothing
  is done; a path whose last component is a dot is refused.
\<close>

definition within :: "string \<Rightarrow> string \<Rightarrow> bool" where
  "within dir p = (p = dir \<or> prefix (dir @ ''/'') p)"

definition endsWithDot :: "string \<Rightarrow> bool" where
  "endsWithDot path = (path = ''.'' \<or> suffix ''/.'' path)"

definition PathError :: "string \<Rightarrow> string \<Rightarrow> string \<Rightarrow> error" where
  "PathError op path text = Error (op @ '' '' @ path @ '': '' @ text) (Some (errors_New text))"

definition os_RemoveAll :: "'n env \<Rightarrow> string \<Rightarrow> 'n world \<Rightarrow> error option \<times> 'n world" where
  "os_RemoveAll E path w =
     (if path = [] then (None, w\<lparr>trace := trace w @ [RemoveAllCall path None]\<rparr>)
      else if endsWithDot path
      then (Some (PathError ''RemoveAll'' path ''invalid argument''),
            w\<lparr>trace := trace w
                 @ [RemoveAllCall path (Some (PathError ''RemoveAll'' path ''invalid argument''))]\<rparr>)
      else
        let stuck = filter (\<lambda>p. within path p \<and> \<not> os_removable E (sys_of w) p) (files w);
            err = (case stuck of
                     [] \<Rightarrow> None
                   | p # ps \<Rightarrow> Some (PathError ''unlinkat'' p ''permission denied''))
        in (err,
            w\<lparr>files := filter (\<lambda>p. if within path p then list_ex (within p) stuck else True)
                          (files w),
              trace := trace w @ [RemoveAllCall path err]\<rparr>))"

text \<open>A call of \<open>os.MkdirTemp\<close>: the library function runs and the call is recorded.\<close>

definition call_MkdirTemp ::
  "'n env \<Rightarrow> string \<Rightarrow> string \<Rightarrow> 'n world \<Rightarrow> (error + string) \<times> 'n world" where
  "call_MkdirTemp E dir pattern w =
     (case os_MkdirTemp E dir pattern (sys_of w) of
        (r, s) \<Rightarrow> (r, (set_sys s w)\<lparr>trace := trace w @ [MkdirTempCall dir pattern]\<rparr>))"

text \<open>A call of \<open>DownloadUpgrade\<close>: the downloader runs and the call is recorded.\<close>

definition call_DownloadUpgrade ::
  "'n env \<Rightarrow> string \<Rightarrow> string \<Rightarrow> string \<Rightarrow> 'n world \<Rightarrow> error option \<times> 'n world" where
  "call_DownloadUpgrade E dstRoot url daemonName w =
     (case DownloadUpgrade E dstRoot url daemonName (sys_of w) of
        (err, s) \<Rightarrow>
          (err, (set_sys s w)\<lparr>trace := trace w @ [DownloadUpgradeCall dstRoot url daemonName err]\<rparr>))"

text \<open>The \<open>range\<close> loop of \<open>CheckURLs\<close>, over the entries still to visit.\<close>

fun CheckURLs_range ::
  "'n env \<Rightarrow> string \<Rightarrow> string \<Rightarrow> BinaryDownloadURLMap \<Rightarrow> 'n world \<Rightarrow> error option \<times> 'n world" where
  "CheckURLs_range E tempDir daemonName [] w = (None, w)"
| "CheckURLs_range E tempDir daemonName ((osArch, url) # rest) w =
     (let dstRoot = filepath_Join E tempDir (strings_ReplaceAll osArch ''/'' ''-'')
      in case call_DownloadUpgrade E dstRoot url daemonName w of
           (Some err, w') \<Rightarrow>
             (Some (Error (''error downloading binary for os/arch '' @ osArch @ '': ''
                           @ message err) None), w')
         | (None, w') \<Rightarrow> CheckURLs_range E tempDir daemonName rest w')"

text \<open>
  \<open>CheckURLs\<close>: the deferred \<open>os.RemoveAll(tempDir)\<close> runs after the loop, whatever
  the loop returns, and the error it returns is dropped.
\<close>

definition CheckURLs ::
  "'n env \<Rightarrow> BinaryDownloadURLMap \<Rightarrow> string \<Rightarrow> 'n world \<Rightarrow> error option \<times> 'n world" where
  "CheckURLs E m daemonName w =
     (case call_MkdirTemp E '''' ''os-arch-downloads'' w of
        (Inl err, w0) \<Rightarrow>
          (Some (Error (''could not create temp directory: '' @ message err) (Some err)), w0)
      | (Inr tempDir, w0) \<Rightarrow>
          (case CheckURLs_range E tempDir daemonName m w0 of
             (r, w') \<Rightarrow> (r, snd (os_RemoveAll E tempDir w'))))"

subsection \<open>ValidateFull\<close>

definition ValidateFull ::
  "'n env \<Rightarrow> PlanInfo \<Rightarrow> string \<Rightarrow> 'n world \<Rightarrow> error option \<times> 'n world" where
  "ValidateFull E m daemonName w =
     (case ValidateBasic E (Binaries m) of
        Some err \<Rightarrow> (Some err, w)
      | None \<Rightarrow>
          (case CheckURLs E (Binaries m) daemonName w of
             (Some err, w') \<Rightarrow> (Some err, w')
           | (None, w') \<Rightarrow> (None, w')))"

subsection \<open>ParsePlanInfo\<close>

text \<open>A call of \<open>DownloadPlanInfoFromURL\<close>: the downloader runs and the call is recorded.\<close>

definition call_DownloadPlanInfoFromURL ::
  "'n env \<Rightarrow> string \<Rightarrow> 'n world \<Rightarrow> (error + string) \<times> 'n world" where
  "call_DownloadPlanInfoFromURL E url w =
     (case DownloadPlanInfoFromURL E url (sys_of w) of
        (r, s) \<Rightarrow> (r, (set_sys s w)\<lparr>trace := trace w @ [DownloadPlanInfoFromURLCall url]\<rparr>))"

text \<open>The last step of \<open>ParsePlanInfo\<close>: \<open>json.Unmarshal\<close> into a \<open>PlanInfo\<close>.\<close>

definition ParsePlanInfo_decode :: "'n env \<Rightarrow> string \<Rightarrow> error + PlanInfo" where
  "ParsePlanInfo_decode E infoStr =
     (case json_Unmarshal E infoStr of
        Inl err \<Rightarrow> Inl (Error (''could not parse plan info: '' @ message err) None)
      | Inr planInfo \<Rightarrow> Inr planInfo)"

definition ParsePlanInfo :: "'n env \<Rightarrow> string \<Rightarrow> 'n world \<Rightarrow> (error + PlanInfo) \<times> 'n world" where
  "ParsePlanInfo E infoStr0 w =
     (let infoStr = strings_TrimSpace E infoStr0
      in case url_Parse E infoStr of
           None \<Rightarrow>
             (case call_DownloadPlanInfoFromURL E infoStr w of
                (Inl err, w') \<Rightarrow> (Inl err, w')
              | (Inr body, w') \<Rightarrow> (ParsePlanInfo_decode E body, w'))
         | Some err \<Rightarrow> (ParsePlanInfo_decode E infoStr, w))"

subsection \<open>A concrete environment\<close>

text \<open>
  One instance of the environment, used to run the functions on concrete inputs. Each
  part answers as Go does on the inputs the theorems below evaluate:
  \<^item> \<open>demo_TrimSpace\<close> trims the ASCII white space;
  \<^item> \<open>demo_url_Parse\<close> applies the first checks of \<open>net/url.Parse\<close> (control bytes, the
    scheme, a colon in the first segment of a relative reference), with Go's error
    text, and accepts every string that passes them;
  \<^item> \<open>demo_json_Unmarshal\<close> is a table of documents with what \<open>json.Unmarshal\<close> gives
    for a \<open>PlanInfo\<close>; a document outside the table gets an error that says so;
  \<^item> the rest of the system is a table from URLs to what they serve; an artifact is
    usable when what its URL serves is the name of the daemon, otherwise the
    downloader stages what is served and fails;
  \<^item> a temporary directory can be made when \<open>/tmp\<close> exists;
  \<^item> a path below a directory named \<open>ro\<close> cannot be removed (a read-only directory).
\<close>

definition is_space :: "char \<Rightarrow> bool" where
  "is_space c = (c \<in> set [CHR 0x09, CHR 0x0A, CHR 0x0B, CHR 0x0C, CHR 0x0D, CHR 0x20])"

definition demo_TrimSpace :: "string \<Rightarrow> string" where
  "demo_TrimSpace s = rev (dropWhile is_space (rev (dropWhile is_space s)))"

definition is_ctl :: "char \<Rightarrow> bool" where
  "is_ctl c = ((of_char c :: nat) < 32 \<or> (of_char c :: nat) = 127)"

definition is_letter :: "char \<Rightarrow> bool" where
  "is_letter c = in_class [(CHR ''a'', CHR ''z''), (CHR ''A'', CHR ''Z'')] c"

definition is_scheme_char :: "char \<Rightarrow> bool" where
  "is_scheme_char c =
     (is_letter c \<or> in_class [(CHR ''0'', CHR ''9'')] c \<or> c \<in> set ''+-.'')"

definition has_scheme :: "string \<Rightarrow> bool" where
  "has_scheme s =
     (case s of
        [] \<Rightarrow> False
      | c # cs \<Rightarrow> is_letter c \<and>
          (case dropWhile is_scheme_char cs of [] \<Rightarrow> False | d # ds \<Rightarrow> d = CHR '':''))"

text \<open>
  \<open>strconv.Quote\<close>, which the verb \<open>%q\<close> applies: the string in double quotes, with
  a backslash before a double quote or a backslash, Go's escapes for the control
  characters, and \<open>\xhh\<close> for the other bytes that are not printable ASCII.
\<close>

definition hex_digit :: "nat \<Rightarrow> char" where
  "hex_digit n = ''0123456789abcdef'' ! (n mod 16)"

definition quote_byte :: "char \<Rightarrow> string" where
  "quote_byte c =
     (if c = CHR 0x22 then [CHR 0x5C, CHR 0x22]
      else if c = CHR 0x5C then [CHR 0x5C, CHR 0x5C]
      else if 32 \<le> (of_char c :: nat) \<and> (of_char c :: nat) < 127 then [c]
      else if c = CHR 0x07 then [CHR 0x5C, CHR ''a'']
      else if c = CHR 0x08 then [CHR 0x5C, CHR ''b'']
      else if c = CHR 0x0C then [CHR 0x5C, CHR ''f'']
      else if c = CHR 0x0A then [CHR 0x5C, CHR ''n'']
      else if c = CHR 0x0D then [CHR 0x5C, CHR ''r'']
      else if c = CHR 0x09 then [CHR 0x5C, CHR ''t'']
      else if c = CHR 0x0B then [CHR 0x5C, CHR ''v'']
      else [CHR 0x5C, CHR ''x'', hex_digit (of_char c div 16), hex_digit (of_char c)])"

definition strconv_Quote :: "string \<Rightarrow> string" where
  "strconv_Quote s = [CHR 0x22] @ concat (map quote_byte s) @ [CHR 0x22]"

text \<open>The error of \<open>url.Parse\<close>: a \<open>url.Error\<close> with the operation \<open>parse\<close>, whose message
  is made with \<open>%s %q: %s\<close> and which wraps the cause.\<close>

definition url_Error :: "string \<Rightarrow> string \<Rightarrow> error" where
  "url_Error u text =
     Error (''parse '' @ strconv_Quote u @ '': '' @ text) (Some (errors_New text))"

definition demo_url_Parse :: "string \<Rightarrow> error option" where
  "demo_url_Parse s =
     (let u = takeWhile (\<lambda>c. c \<noteq> CHR ''#'') s;
          rest = takeWhile (\<lambda>c. c \<noteq> CHR ''?'') u
      in if list_ex is_ctl u
         then Some (url_Error u ''net/url: invalid control character in URL'')
         else if prefix '':'' u then Some (url_Error u ''missing protocol scheme'')
         else if has_scheme u then None
         else if \<not> prefix ''/'' rest \<and> CHR '':'' \<in> set (takeWhile (\<lambda>c. c \<noteq> CHR ''/'') rest)
         then Some (url_Error u ''first path segment in URL cannot contain colon'')
         else None)"

definition demo_json_table :: "(string \<times> (error + PlanInfo)) list" where
  "demo_json_table =
     [(''{\"binaries\":{}}'', Inr \<lparr>Binaries = []\<rparr>),
      (''{\"binaries\":{\"linux/amd64\":\"https://example.com/v2.tgz\"}}'',
         Inr \<lparr>Binaries = [(''linux/amd64'', ''https://example.com/v2.tgz'')]\<rparr>),
      ((''{\"binaries\":{\"k\":\"'' @ [CHR 0x5C] @ ''ufffd\"}}''),
         Inr \<lparr>Binaries = [(''k'', [CHR 0xEF, CHR 0xBF, CHR 0xBD])]\<rparr>),
      (''{\"binaries\":null}'', Inr \<lparr>Binaries = []\<rparr>),
      (''{\"foo\":\"bar\"}'', Inr \<lparr>Binaries = []\<rparr>),
      (''{}'', Inr \<lparr>Binaries = []\<rparr>),
      (''null'', Inr \<lparr>Binaries = []\<rparr>),
      (''{\"binaries\":5}'',
         Inl (errors_New (''json: cannot unmarshal number into Go struct field ''
                @ ''PlanInfo.binaries of type planinfo.BinaryDownloadURLMap''))),
      (''myd'', Inl (errors_New (''invalid character '' @ [CHR 0x27] @ ''m'' @ [CHR 0x27]
              @ '' looking for beginning of value''))),
      (''{'', Inl (errors_New ''unexpected end of JSON input'')),
      ('''', Inl (errors_New ''unexpected end of JSON input''))]"

definition demo_json_Unmarshal :: "string \<Rightarrow> error + PlanInfo" where
  "demo_json_Unmarshal s =
     (case map_of demo_json_table s of
        Some r \<Rightarrow> r
      | None \<Rightarrow> Inl (errors_New ''demo_json_Unmarshal: document not in the table''))"

text \<open>\<open>json.Marshal\<close> of three values, as Go writes them: a map with one entry, a map
  with a value that is not valid UTF-8, which Go replaces by the escape of U+FFFD, and
  the empty map (not \<open>nil\<close>).\<close>

definition demo_json_Marshal :: "PlanInfo \<Rightarrow> string" where
  "demo_json_Marshal p =
     (if Binaries p = [(''linux/amd64'', ''https://example.com/v2.tgz'')]
      then ''{\"binaries\":{\"linux/amd64\":\"https://example.com/v2.tgz\"}}''
      else if Binaries p = [(''k'', [CHR 0xFF])]
      then (''{\"binaries\":{\"k\":\"'' @ [CHR 0x5C] @ ''ufffd\"}}'')
      else if Binaries p = [] then ''{\"binaries\":{}}''
      else ''demo_json_Marshal: value not in the table'')"

type_synonym demo_net = "(string \<times> string) list"

definition demo_MkdirTemp :: "string \<Rightarrow> string \<Rightarrow> demo_net sys \<Rightarrow> (error + string) \<times> demo_net sys" where
  "demo_MkdirTemp dir pattern s =
     (if ''/tmp'' \<in> set (fst s)
      then (Inr (''/tmp/'' @ pattern @ ''1''), ((''/tmp/'' @ pattern @ ''1'') # fst s, snd s))
      else (Inl (PathError ''mkdir'' (''/tmp/'' @ pattern @ ''1'') ''no such file or directory''), s))"

definition demo_removable :: "demo_net sys \<Rightarrow> string \<Rightarrow> bool" where
  "demo_removable s p = (\<not> list_ex (prefix ''/ro/'') (suffixes p))"

definition demo_DownloadUpgrade ::
  "string \<Rightarrow> string \<Rightarrow> string \<Rightarrow> demo_net sys \<Rightarrow> error option \<times> demo_net sys" where
  "demo_DownloadUpgrade dstRoot url daemonName s =
     (case map_of (snd s) url of
        None \<Rightarrow> (Some (errors_New ''bad response code: 404''), s)
      | Some body \<Rightarrow>
          if body = daemonName
          then (None, ((dstRoot @ ''/bin/'' @ daemonName) # dstRoot # fst s, snd s))
          else (Some (errors_New (''stat '' @ dstRoot @ ''/bin/'' @ daemonName
                        @ '': no such file or directory'')),
                (dstRoot @ ''/'' @ body) # dstRoot # fst s, snd s))"

definition demo_DownloadPlanInfoFromURL ::
  "string \<Rightarrow> demo_net sys \<Rightarrow> (error + string) \<times> demo_net sys" where
  "demo_DownloadPlanInfoFromURL url s =
     (case map_of (snd s) url of
        None \<Rightarrow> (Inl (errors_New ''bad response code: 404''), s)
      | Some body \<Rightarrow> (Inr body, s))"

definition demo_env :: "demo_net env" where
  "demo_env =
     \<lparr>strings_TrimSpace = demo_TrimSpace,
      url_Parse = demo_url_Parse,
      json_Marshal = demo_json_Marshal,
      json_Unmarshal = demo_json_Unmarshal,
      filepath_Join = (\<lambda>dir name. dir @ ''/'' @ name),
      os_MkdirTemp = demo_MkdirTemp,
      os_removable = demo_removable,
      DownloadUpgrade = demo_DownloadUpgrade,
      DownloadPlanInfoFromURL = demo_DownloadPlanInfoFromURL\<rparr>"

definition demo_world :: "demo_net world" where
  "demo_world =
     \<lparr>files = [''/tmp''],
      net = [(''https://example.com/v2.tgz'', ''myd''),
             (''https://example.com/arm.tgz'', ''otherd''),
             (''https://example.com/ro.tgz'', ''ro/cache'')],
      trace = []\<rparr>"

subsection \<open>Contracts of the library functions\<close>



section \<open>Properties\<close>

subsection \<open>The empty map\<close>

text \<open>
  C7, as the claim states it, at the empty map: the message of the error would be
  \<open>no binaries entries found\<close>. It is not: the code puts the word \<open>binaries\<close> in
  double quotes.
\<close>

theorem C7_message_counterexample:
  "map_option message (ValidateBasic demo_env []) \<noteq> Some ''no binaries entries found''"
  by (simp add: ValidateBasic_def errors_New_def)

text \<open>
  C7 (amended): for a map with zero entries, in every environment, \<open>ValidateBasic\<close>
  returns the error whose message is exactly \<open>no "binaries" entries found\<close> (the word
  \<open>binaries\<close> in double quotes), wrapping nothing. The result does not depend on the
  environment: no key or value is examined and no URL is parsed.
\<close>

theorem C7_empty_map_error:
  "ValidateBasic E [] = Some (Error ''no \"binaries\" entries found'' None)"
  by (simp add: ValidateBasic_def errors_New_def)

subsection \<open>The loop of CheckURLs and its trace\<close>

lemma call_MkdirTemp_trace:
  "call_MkdirTemp E dir pattern w = (r, w0) \<Longrightarrow> trace w0 = trace w @ [MkdirTempCall dir pattern]"
  by (auto simp: call_MkdirTemp_def set_sys_def split: prod.splits)

text \<open>A loop that returns \<open>nil\<close> has called \<open>DownloadUpgrade\<close> once for each entry, in
  order, and every call returned \<open>nil\<close>.\<close>

lemma CheckURLs_range_ok:
  "CheckURLs_range E t d m w = (None, w') \<Longrightarrow>
   trace w' = trace w
     @ map (\<lambda>(k, u). DownloadUpgradeCall
              (filepath_Join E t (strings_ReplaceAll k ''/'' ''-'')) u d None) m"
proof (induction m arbitrary: w)
  case Nil
  then show ?case by simp
next
  case (Cons a m)
  obtain k u where a: "a = (k, u)" by (cases a)
  from Cons.prems show ?case
    by (auto simp: a call_DownloadUpgrade_def Let_def set_sys_def
        split: prod.splits option.splits dest!: Cons.IH)
qed

text \<open>A loop that returns an error stopped at the first entry whose download failed.\<close>

lemma CheckURLs_range_fail:
  "CheckURLs_range E t d m w = (Some e', w') \<Longrightarrow>
   \<exists>n e. n < length m \<and>
     e' = Error (''error downloading binary for os/arch '' @ fst (m ! n) @ '': ''
                 @ message e) None \<and>
     trace w' = trace w
       @ map (\<lambda>(k, u). DownloadUpgradeCall
                (filepath_Join E t (strings_ReplaceAll k ''/'' ''-'')) u d None) (take n m)
       @ [DownloadUpgradeCall
            (filepath_Join E t (strings_ReplaceAll (fst (m ! n)) ''/'' ''-''))
            (snd (m ! n)) d (Some e)]"
proof (induction m arbitrary: w)
  case Nil
  then show ?case by simp
next
  case (Cons a m)
  obtain k u where a: "a = (k, u)" by (cases a)
  obtain r w1 where
    c: "call_DownloadUpgrade E (filepath_Join E t (strings_ReplaceAll k ''/'' ''-'')) u d w
          = (r, w1)"
    by (cases "call_DownloadUpgrade E (filepath_Join E t (strings_ReplaceAll k ''/'' ''-'')) u d w")
  then have tr: "trace w1 = trace w
      @ [DownloadUpgradeCall (filepath_Join E t (strings_ReplaceAll k ''/'' ''-'')) u d r]"
    by (auto simp: call_DownloadUpgrade_def set_sys_def split: prod.splits)
  show ?case
  proof (cases r)
    case None
    with Cons.prems a c have "CheckURLs_range E t d m w1 = (Some e', w')" by simp
    from Cons.IH [OF this] obtain n e where
      n: "n < length m"
      and e: "e' = Error (''error downloading binary for os/arch '' @ fst (m ! n) @ '': ''
                          @ message e) None"
      and t: "trace w' = trace w1
        @ map (\<lambda>(k, u). DownloadUpgradeCall
                 (filepath_Join E t (strings_ReplaceAll k ''/'' ''-'')) u d None) (take n m)
        @ [DownloadUpgradeCall
             (filepath_Join E t (strings_ReplaceAll (fst (m ! n)) ''/'' ''-''))
             (snd (m ! n)) d (Some e)]"
      by blast
    show ?thesis
      apply (rule exI [of _ "Suc n"], rule exI [of _ e])
      using n e t tr None a by simp
  next
    case (Some e)
    with Cons.prems a c
    have "e' = Error (''error downloading binary for os/arch '' @ k @ '': '' @ message e) None"
      and "w' = w1"
      by auto
    then show ?thesis
      apply -
      apply (rule exI [of _ 0], rule exI [of _ e])
      using tr Some a by simp
  qed
qed

text \<open>Every run of \<open>CheckURLs\<close> leaves its mark in the trace: a world returned unchanged
  has seen no run of it.\<close>

lemma os_RemoveAll_trace:
  "trace (snd (os_RemoveAll E path w))
     = trace w @ [RemoveAllCall path (fst (os_RemoveAll E path w))]"
  by (simp add: os_RemoveAll_def Let_def)

text \<open>A removal that returns \<open>nil\<close> for a path that is not empty leaves nothing of it.\<close>

lemma os_RemoveAll_ok:
  assumes "fst (os_RemoveAll E path w) = None" and "path \<noteq> []"
  shows "filter (within path) (files (snd (os_RemoveAll E path w))) = []"
proof (cases "endsWithDot path")
  case True
  with assms show ?thesis by (simp add: os_RemoveAll_def)
next
  case False
  have "filter (\<lambda>p. within path p \<and> \<not> os_removable E (sys_of w) p) (files w) = []"
    using assms False by (simp add: os_RemoveAll_def Let_def split: list.splits)
  with assms(2) False show ?thesis
    by (simp add: os_RemoveAll_def Let_def filter_empty_conv)
qed

lemma CheckURLs_extends_trace: "trace (snd (CheckURLs E m d w)) \<noteq> trace w"
proof (cases "call_MkdirTemp E '''' ''os-arch-downloads'' w")
  case (Pair r w0)
  note tr0 = call_MkdirTemp_trace [OF Pair]
  show ?thesis
  proof (cases r)
    case (Inl err)
    with Pair tr0 show ?thesis by (simp add: CheckURLs_def)
  next
    case (Inr tempDir)
    obtain r' w' where loop: "CheckURLs_range E tempDir d m w0 = (r', w')"
      by (cases "CheckURLs_range E tempDir d m w0")
    have "length (trace w0) \<le> length (trace w')"
    proof (cases r')
      case None
      with loop show ?thesis by (auto dest: CheckURLs_range_ok)
    next
      case (Some e')
      with loop show ?thesis by (auto dest!: CheckURLs_range_fail)
    qed
    with tr0 have "length (trace w) < length (trace (snd (os_RemoveAll E tempDir w')))"
      by (simp add: os_RemoveAll_trace)
    with Pair Inr loop show ?thesis by (auto simp: CheckURLs_def)
  qed
qed

subsection \<open>ValidateFull\<close>

text \<open>
  C2: \<open>ValidateFull\<close> runs \<open>ValidateBasic\<close> first. If that returns an error,
  \<open>ValidateFull\<close> returns the same error and the world it was given, trace included:
  \<open>CheckURLs\<close>, which always extends the trace, has not run and nothing reached the
  operating system or the network. If \<open>ValidateBasic\<close> returns \<open>nil\<close>, the result of
  \<open>ValidateFull\<close> is exactly the result of \<open>CheckURLs\<close>. In particular a plan with an
  empty binaries map fails with the empty-table error and leaves the world untouched.
\<close>

theorem C2_ValidateFull_gates_CheckURLs:
  "(ValidateBasic E (Binaries m) = Some err \<longrightarrow> ValidateFull E m d w = (Some err, w))
   \<and> (ValidateBasic E (Binaries m) = None \<longrightarrow>
        ValidateFull E m d w = CheckURLs E (Binaries m) d w)
   \<and> (Binaries m = [] \<longrightarrow>
        ValidateFull E m d w = (Some (Error ''no \"binaries\" entries found'' None), w))"
  by (auto simp: ValidateFull_def ValidateBasic_def errors_New_def
      split: prod.splits option.splits)

theorem C2_ValidateFull_witness:
  "ValidateBasic demo_env (Binaries \<lparr>Binaries = [(''bogus-key'', ''https://x'')]\<rparr>)
     = Some (Error ''invalid os/arch format in key \"bogus-key\"'' None)
   \<and> ValidateFull demo_env \<lparr>Binaries = [(''bogus-key'', ''https://x'')]\<rparr> ''myd'' demo_world
     = (Some (Error ''invalid os/arch format in key \"bogus-key\"'' None), demo_world)
   \<and> ValidateBasic demo_env
        (Binaries \<lparr>Binaries = [(''linux/amd64'', ''https://example.com/v2.tgz'')]\<rparr>) = None
   \<and> ValidateFull demo_env \<lparr>Binaries = [(''linux/amd64'', ''https://example.com/v2.tgz'')]\<rparr>
        ''myd'' demo_world
     = CheckURLs demo_env [(''linux/amd64'', ''https://example.com/v2.tgz'')] ''myd'' demo_world
   \<and> Binaries \<lparr>Binaries = []\<rparr> = []
   \<and> ValidateFull demo_env \<lparr>Binaries = []\<rparr> ''myd'' demo_world
     = (Some (Error ''no \"binaries\" entries found'' None), demo_world)"
proof -
  have h1: "ValidateBasic demo_env (Binaries \<lparr>Binaries = [(''bogus-key'', ''https://x'')]\<rparr>)
     = Some (Error ''invalid os/arch format in key \"bogus-key\"'' None)"
    by code_simp
  have h2: "ValidateBasic demo_env
        (Binaries \<lparr>Binaries = [(''linux/amd64'', ''https://example.com/v2.tgz'')]\<rparr>) = None"
    by code_simp
  have h3: "Binaries \<lparr>Binaries = []\<rparr> = []" by simp
  from C2_ValidateFull_gates_CheckURLs
         [of demo_env "\<lparr>Binaries = [(''bogus-key'', ''https://x'')]\<rparr>"
             "Error ''invalid os/arch format in key \"bogus-key\"'' None" "''myd''" demo_world] h1
  have c1: "ValidateFull demo_env \<lparr>Binaries = [(''bogus-key'', ''https://x'')]\<rparr> ''myd'' demo_world
     = (Some (Error ''invalid os/arch format in key \"bogus-key\"'' None), demo_world)"
    by blast
  from C2_ValidateFull_gates_CheckURLs
         [of demo_env "\<lparr>Binaries = [(''linux/amd64'', ''https://example.com/v2.tgz'')]\<rparr>"
             _ "''myd''" demo_world] h2
  have c2: "ValidateFull demo_env
        \<lparr>Binaries = [(''linux/amd64'', ''https://example.com/v2.tgz'')]\<rparr> ''myd'' demo_world
     = CheckURLs demo_env [(''linux/amd64'', ''https://example.com/v2.tgz'')] ''myd'' demo_world"
    by simp
  from C2_ValidateFull_gates_CheckURLs [of demo_env "\<lparr>Binaries = []\<rparr>" _ "''myd''" demo_world] h3
  have c3: "ValidateFull demo_env \<lparr>Binaries = []\<rparr> ''myd'' demo_world
     = (Some (Error ''no \"binaries\" entries found'' None), demo_world)"
    by blast
  from h1 c1 h2 c2 h3 c3 show ?thesis by blast
qed

subsection \<open>The scratch directory\<close>

text \<open>
  C3, as the claim states it, at the map \<open>{"linux/amd64": "https://example.com/ro.tgz"}\<close>
  in a world where that artifact stages a file below a read-only directory:
  \<open>os.MkdirTemp\<close> succeeds, the download fails, the deferred \<open>os.RemoveAll\<close> cannot
  remove the staged file and returns an error, which \<open>CheckURLs\<close> drops; the scratch
  directory is still there when \<open>CheckURLs\<close> has returned.
\<close>

theorem C3_scratch_directory_survives_counterexample:
  "os_MkdirTemp demo_env '''' ''os-arch-downloads'' (sys_of demo_world)
     = (Inr ''/tmp/os-arch-downloads1'', ([''/tmp/os-arch-downloads1'', ''/tmp''], net demo_world))
   \<and> filter (within ''/tmp/os-arch-downloads1'')
        (files (snd (CheckURLs demo_env [(''linux/amd64'', ''https://example.com/ro.tgz'')]
                       ''myd'' demo_world)))
       = [''/tmp/os-arch-downloads1/linux-amd64/ro/cache'',
          ''/tmp/os-arch-downloads1/linux-amd64'',
          ''/tmp/os-arch-downloads1'']"
proof -
  have "os_MkdirTemp demo_env '''' ''os-arch-downloads'' (sys_of demo_world)
     = (Inr ''/tmp/os-arch-downloads1'', ([''/tmp/os-arch-downloads1'', ''/tmp''], net demo_world))"
    by (simp add: demo_env_def demo_MkdirTemp_def sys_of_def demo_world_def)
  moreover
  have "filter (within ''/tmp/os-arch-downloads1'')
        (files (snd (CheckURLs demo_env [(''linux/amd64'', ''https://example.com/ro.tgz'')]
                       ''myd'' demo_world)))
       = [''/tmp/os-arch-downloads1/linux-amd64/ro/cache'',
          ''/tmp/os-arch-downloads1/linux-amd64'',
          ''/tmp/os-arch-downloads1'']"
    by code_simp
  ultimately show ?thesis by blast
qed

text \<open>
  C3 (amended): whenever \<open>os.MkdirTemp\<close> succeeds and returns \<open>tempDir\<close>, then for every
  map, every daemon name and every behaviour of the downloader, the last call
  \<open>CheckURLs\<close> makes before it returns is \<open>os.RemoveAll(tempDir)\<close>, on success and on a
  failed download alike; and when that call returns \<open>nil\<close> (and \<open>tempDir\<close> is not the
  empty path), the filesystem that \<open>CheckURLs\<close> leaves holds no path that is \<open>tempDir\<close>
  or lies under it. What \<open>os.RemoveAll\<close> returns is dropped: when the removal fails the
  directory may survive.
\<close>

theorem C3_scratch_directory_removed:
  assumes "os_MkdirTemp E '''' ''os-arch-downloads'' (sys_of w) = (Inr tempDir, s)"
  shows "(\<exists>r. last (trace (snd (CheckURLs E m d w))) = RemoveAllCall tempDir r)
     \<and> (last (trace (snd (CheckURLs E m d w))) = RemoveAllCall tempDir None \<and> tempDir \<noteq> []
          \<longrightarrow> filter (within tempDir) (files (snd (CheckURLs E m d w))) = [])"
proof -
  obtain w0 where mk: "call_MkdirTemp E '''' ''os-arch-downloads'' w = (Inr tempDir, w0)"
    using assms by (simp add: call_MkdirTemp_def)
  obtain r w' where loop: "CheckURLs_range E tempDir d m w0 = (r, w')"
    by (cases "CheckURLs_range E tempDir d m w0")
  have res: "snd (CheckURLs E m d w) = snd (os_RemoveAll E tempDir w')"
    using mk loop by (simp add: CheckURLs_def)
  have lst: "last (trace (snd (CheckURLs E m d w)))
      = RemoveAllCall tempDir (fst (os_RemoveAll E tempDir w'))"
    unfolding res os_RemoveAll_trace by simp
  show ?thesis
  proof (intro conjI impI)
    show "\<exists>r. last (trace (snd (CheckURLs E m d w))) = RemoveAllCall tempDir r"
      using lst by blast
    assume a: "last (trace (snd (CheckURLs E m d w))) = RemoveAllCall tempDir None
      \<and> tempDir \<noteq> []"
    with lst have "fst (os_RemoveAll E tempDir w') = None" by simp
    from os_RemoveAll_ok [OF this] a
    show "filter (within tempDir) (files (snd (CheckURLs E m d w))) = []"
      unfolding res by blast
  qed
qed

theorem C3_scratch_directory_witness:
  "os_MkdirTemp demo_env '''' ''os-arch-downloads'' (sys_of demo_world)
     = (Inr ''/tmp/os-arch-downloads1'', ([''/tmp/os-arch-downloads1'', ''/tmp''], net demo_world))
   \<and> last (trace (snd (CheckURLs demo_env
           [(''linux/amd64'', ''https://example.com/v2.tgz''),
            (''linux/arm'', ''https://example.com/arm.tgz'')] ''myd'' demo_world)))
       = RemoveAllCall ''/tmp/os-arch-downloads1'' None
   \<and> ''/tmp/os-arch-downloads1'' \<noteq> []
   \<and> filter (within ''/tmp/os-arch-downloads1'')
        (files (snd (CheckURLs demo_env
           [(''linux/amd64'', ''https://example.com/v2.tgz''),
            (''linux/arm'', ''https://example.com/arm.tgz'')] ''myd'' demo_world))) = []"
proof -
  have h: "os_MkdirTemp demo_env '''' ''os-arch-downloads'' (sys_of demo_world)
     = (Inr ''/tmp/os-arch-downloads1'', ([''/tmp/os-arch-downloads1'', ''/tmp''], net demo_world))"
    by (simp add: demo_env_def demo_MkdirTemp_def sys_of_def demo_world_def)
  have l: "last (trace (snd (CheckURLs demo_env
           [(''linux/amd64'', ''https://example.com/v2.tgz''),
            (''linux/arm'', ''https://example.com/arm.tgz'')] ''myd'' demo_world)))
       = RemoveAllCall ''/tmp/os-arch-downloads1'' None"
    by code_simp
  have n: "''/tmp/os-arch-downloads1'' \<noteq> []" by simp
  from C3_scratch_directory_removed [OF h] l n
  have "filter (within ''/tmp/os-arch-downloads1'')
        (files (snd (CheckURLs demo_env
           [(''linux/amd64'', ''https://example.com/v2.tgz''),
            (''linux/arm'', ''https://example.com/arm.tgz'')] ''myd'' demo_world))) = []"
    by blast
  with h l n show ?thesis by blast
qed

subsection \<open>Fail-fast downloads\<close>

text \<open>
  C4, at a map whose second entry fails to download: the claim has \<open>CheckURLs\<close>
  return an error that wraps the cause and names the platform key. The error returned
  names the key and its message ends with the message of the cause, which the trace
  records; but the cause is formatted with \<open>%v\<close>, where the error for \<open>os.MkdirTemp\<close> a
  few lines above uses \<open>%w\<close>, so the error returned wraps nothing (\<open>errors.Unwrap\<close>
  gives \<open>nil\<close>). The third entry is not downloaded.
\<close>

theorem C4_download_error_not_wrapped:
  "trace (snd (CheckURLs demo_env
          [(''linux/amd64'', ''https://example.com/v2.tgz''),
           (''linux/arm'', ''https://example.com/arm.tgz''),
           (''any'', ''https://example.com/v2.tgz'')] ''myd'' demo_world))
     = [MkdirTempCall '''' ''os-arch-downloads'',
        DownloadUpgradeCall ''/tmp/os-arch-downloads1/linux-amd64''
          ''https://example.com/v2.tgz'' ''myd'' None,
        DownloadUpgradeCall ''/tmp/os-arch-downloads1/linux-arm''
          ''https://example.com/arm.tgz'' ''myd''
          (Some (Error (''stat /tmp/os-arch-downloads1/linux-arm/bin/myd: ''
                   @ ''no such file or directory'') None)),
        RemoveAllCall ''/tmp/os-arch-downloads1'' None]
   \<and> map_option message (fst (CheckURLs demo_env
          [(''linux/amd64'', ''https://example.com/v2.tgz''),
           (''linux/arm'', ''https://example.com/arm.tgz''),
           (''any'', ''https://example.com/v2.tgz'')] ''myd'' demo_world))
     = Some (''error downloading binary for os/arch linux/arm: ''
            @ ''stat /tmp/os-arch-downloads1/linux-arm/bin/myd: no such file or directory'')
   \<and> map_option unwrap (fst (CheckURLs demo_env
          [(''linux/amd64'', ''https://example.com/v2.tgz''),
           (''linux/arm'', ''https://example.com/arm.tgz''),
           (''any'', ''https://example.com/v2.tgz'')] ''myd'' demo_world))
     = Some None"
proof -
  let ?bad = "[(''linux/amd64'', ''https://example.com/v2.tgz''),
              (''linux/arm'', ''https://example.com/arm.tgz''),
              (''any'', ''https://example.com/v2.tgz'')]"
  have "trace (snd (CheckURLs demo_env ?bad ''myd'' demo_world))
     = [MkdirTempCall '''' ''os-arch-downloads'',
        DownloadUpgradeCall ''/tmp/os-arch-downloads1/linux-amd64''
          ''https://example.com/v2.tgz'' ''myd'' None,
        DownloadUpgradeCall ''/tmp/os-arch-downloads1/linux-arm''
          ''https://example.com/arm.tgz'' ''myd''
          (Some (Error (''stat /tmp/os-arch-downloads1/linux-arm/bin/myd: ''
                   @ ''no such file or directory'') None)),
        RemoveAllCall ''/tmp/os-arch-downloads1'' None]"
    by code_simp
  moreover
  have "map_option message (fst (CheckURLs demo_env ?bad ''myd'' demo_world))
     = Some (''error downloading binary for os/arch linux/arm: ''
            @ ''stat /tmp/os-arch-downloads1/linux-arm/bin/myd: no such file or directory'')"
    by code_simp
  moreover
  have "map_option unwrap (fst (CheckURLs demo_env ?bad ''myd'' demo_world)) = Some None"
    by code_simp
  ultimately show ?thesis by blast
qed

text \<open>
  The fail-fast part of C4, for every map and every behaviour of the downloader: the
  calls \<open>CheckURLs\<close> makes, read off the trace. If \<open>CheckURLs\<close> returns
  \<open>nil\<close>, it has called \<open>DownloadUpgrade\<close> for every entry, in the order of the
  iteration, and every call returned \<open>nil\<close>. If it returns an error, then either
  \<open>os.MkdirTemp\<close> failed and nothing was downloaded, or some entry \<open>n\<close> is the first
  whose download failed, with an error \<open>e\<close>: the entries before it were downloaded
  successfully, no entry after it was passed to \<open>DownloadUpgrade\<close>, and the error
  returned has the message
  \<open>error downloading binary for os/arch <key of n>: <message of e>\<close> and wraps
  nothing.
\<close>

theorem CheckURLs_fail_fast:
  "(fst (CheckURLs E m d w) = None \<longrightarrow>
      (\<exists>tempDir r. trace (snd (CheckURLs E m d w)) =
         trace w @ [MkdirTempCall '''' ''os-arch-downloads'']
         @ map (\<lambda>(k, u). DownloadUpgradeCall
                  (filepath_Join E tempDir (strings_ReplaceAll k ''/'' ''-'')) u d None) m
         @ [RemoveAllCall tempDir r]))
   \<and> (fst (CheckURLs E m d w) = Some e' \<longrightarrow>
      (\<exists>err. e' = Error (''could not create temp directory: '' @ message err) (Some err)
          \<and> trace (snd (CheckURLs E m d w)) = trace w @ [MkdirTempCall '''' ''os-arch-downloads''])
      \<or> (\<exists>tempDir n e r. n < length m
          \<and> e' = Error (''error downloading binary for os/arch '' @ fst (m ! n) @ '': ''
                        @ message e) None
          \<and> trace (snd (CheckURLs E m d w)) =
              trace w @ [MkdirTempCall '''' ''os-arch-downloads'']
              @ map (\<lambda>(k, u). DownloadUpgradeCall
                       (filepath_Join E tempDir (strings_ReplaceAll k ''/'' ''-'')) u d None)
                  (take n m)
              @ [DownloadUpgradeCall
                   (filepath_Join E tempDir (strings_ReplaceAll (fst (m ! n)) ''/'' ''-''))
                   (snd (m ! n)) d (Some e)]
              @ [RemoveAllCall tempDir r]))"
proof (cases "call_MkdirTemp E '''' ''os-arch-downloads'' w")
  case (Pair r w0)
  note tr0 = call_MkdirTemp_trace [OF Pair]
  show ?thesis
  proof (cases r)
    case (Inl err)
    with Pair tr0 show ?thesis by (auto simp: CheckURLs_def)
  next
    case (Inr tempDir)
    obtain r' w' where loop: "CheckURLs_range E tempDir d m w0 = (r', w')"
      by (cases "CheckURLs_range E tempDir d m w0")
    have res: "CheckURLs E m d w = (r', snd (os_RemoveAll E tempDir w'))"
      using Pair Inr loop by (simp add: CheckURLs_def)
    have tr: "trace (snd (os_RemoveAll E tempDir w'))
        = trace w' @ [RemoveAllCall tempDir (fst (os_RemoveAll E tempDir w'))]"
      by (rule os_RemoveAll_trace)
    show ?thesis
    proof (cases r')
      case None
      from CheckURLs_range_ok [OF loop [unfolded None]] tr0 tr res None
      show ?thesis by auto
    next
      case (Some e1)
      from CheckURLs_range_fail [OF loop [unfolded Some]] obtain n e where
        "n < length m"
        "e1 = Error (''error downloading binary for os/arch '' @ fst (m ! n) @ '': ''
                     @ message e) None"
        "trace w' = trace w0
           @ map (\<lambda>(k, u). DownloadUpgradeCall
                    (filepath_Join E tempDir (strings_ReplaceAll k ''/'' ''-'')) u d None)
               (take n m)
           @ [DownloadUpgradeCall
                (filepath_Join E tempDir (strings_ReplaceAll (fst (m ! n)) ''/'' ''-''))
                (snd (m ! n)) d (Some e)]"
        by blast
      with tr0 tr res Some show ?thesis by auto
    qed
  qed
qed

theorem CheckURLs_fail_fast_witness:
  "fst (CheckURLs demo_env
          [(''linux/amd64'', ''https://example.com/v2.tgz''),
           (''any'', ''https://example.com/v2.tgz'')] ''myd'' demo_world) = None
   \<and> (\<exists>tempDir r. trace (snd (CheckURLs demo_env
          [(''linux/amd64'', ''https://example.com/v2.tgz''),
           (''any'', ''https://example.com/v2.tgz'')] ''myd'' demo_world)) =
         [MkdirTempCall '''' ''os-arch-downloads'',
          DownloadUpgradeCall (tempDir @ ''/linux-amd64'') ''https://example.com/v2.tgz'' ''myd'' None,
          DownloadUpgradeCall (tempDir @ ''/any'') ''https://example.com/v2.tgz'' ''myd'' None,
          RemoveAllCall tempDir r])
   \<and> fst (CheckURLs demo_env
          [(''linux/amd64'', ''https://example.com/v2.tgz''),
           (''linux/arm'', ''https://example.com/arm.tgz''),
           (''any'', ''https://example.com/v2.tgz'')] ''myd'' demo_world)
       = Some (Error (''error downloading binary for os/arch linux/arm: ''
            @ ''stat /tmp/os-arch-downloads1/linux-arm/bin/myd: no such file or directory'') None)
   \<and> (\<exists>tempDir e r. trace (snd (CheckURLs demo_env
          [(''linux/amd64'', ''https://example.com/v2.tgz''),
           (''linux/arm'', ''https://example.com/arm.tgz''),
           (''any'', ''https://example.com/v2.tgz'')] ''myd'' demo_world)) =
         [MkdirTempCall '''' ''os-arch-downloads'',
          DownloadUpgradeCall (tempDir @ ''/linux-amd64'') ''https://example.com/v2.tgz'' ''myd'' None,
          DownloadUpgradeCall (tempDir @ ''/linux-arm'') ''https://example.com/arm.tgz'' ''myd''
            (Some e),
          RemoveAllCall tempDir r])"
proof -
  let ?ok = "[(''linux/amd64'', ''https://example.com/v2.tgz''),
              (''any'', ''https://example.com/v2.tgz'')]"
  let ?bad = "[(''linux/amd64'', ''https://example.com/v2.tgz''),
              (''linux/arm'', ''https://example.com/arm.tgz''),
              (''any'', ''https://example.com/v2.tgz'')]"
  let ?e = "Error (''error downloading binary for os/arch linux/arm: ''
            @ ''stat /tmp/os-arch-downloads1/linux-arm/bin/myd: no such file or directory'') None"
  have h1: "fst (CheckURLs demo_env ?ok ''myd'' demo_world) = None"
    by code_simp
  have h2: "fst (CheckURLs demo_env ?bad ''myd'' demo_world) = Some ?e"
    by code_simp
  have t0: "trace demo_world = []"
    by (simp add: demo_world_def)
  have r1: "strings_ReplaceAll ''linux/amd64'' ''/'' ''-'' = ''linux-amd64''"
    by code_simp
  have r2: "strings_ReplaceAll ''any'' ''/'' ''-'' = ''any''"
    by code_simp
  have r3: "strings_ReplaceAll ''linux/arm'' ''/'' ''-'' = ''linux-arm''"
    by code_simp
  have j: "filepath_Join demo_env = (\<lambda>dir name. dir @ ''/'' @ name)"
    by (simp add: demo_env_def)
  from CheckURLs_fail_fast [of demo_env ?ok "''myd''" demo_world] h1
  have c1: "\<exists>tempDir r. trace (snd (CheckURLs demo_env ?ok ''myd'' demo_world)) =
         [MkdirTempCall '''' ''os-arch-downloads'',
          DownloadUpgradeCall (tempDir @ ''/linux-amd64'') ''https://example.com/v2.tgz'' ''myd'' None,
          DownloadUpgradeCall (tempDir @ ''/any'') ''https://example.com/v2.tgz'' ''myd'' None,
          RemoveAllCall tempDir r]"
    by (simp add: t0 r1 r2 j)
  from CheckURLs_fail_fast [of demo_env ?bad "''myd''" demo_world ?e] h2
  obtain tempDir n e r where n: "n < length ?bad"
    and e: "?e = Error (''error downloading binary for os/arch '' @ fst (?bad ! n) @ '': ''
                        @ message e) None"
    and t: "trace (snd (CheckURLs demo_env ?bad ''myd'' demo_world)) =
              trace demo_world @ [MkdirTempCall '''' ''os-arch-downloads'']
              @ map (\<lambda>(k, u). DownloadUpgradeCall
                       (filepath_Join demo_env tempDir (strings_ReplaceAll k ''/'' ''-'')) u ''myd'' None)
                  (take n ?bad)
              @ [DownloadUpgradeCall
                   (filepath_Join demo_env tempDir (strings_ReplaceAll (fst (?bad ! n)) ''/'' ''-''))
                   (snd (?bad ! n)) ''myd'' (Some e)]
              @ [RemoveAllCall tempDir r]"
    by auto
  from n have "n = 0 \<or> n = 1 \<or> n = 2" by auto
  with e have n1: "n = 1" by auto
  from t have c2: "\<exists>tempDir e r. trace (snd (CheckURLs demo_env ?bad ''myd'' demo_world)) =
         [MkdirTempCall '''' ''os-arch-downloads'',
          DownloadUpgradeCall (tempDir @ ''/linux-amd64'') ''https://example.com/v2.tgz'' ''myd'' None,
          DownloadUpgradeCall (tempDir @ ''/linux-arm'') ''https://example.com/arm.tgz'' ''myd''
            (Some e),
          RemoveAllCall tempDir r]"
    by (simp add: n1 t0 r1 r3 j)
  from h1 c1 h2 c2 show ?thesis by blast
qed

subsection \<open>CheckURLs on the empty map\<close>

text \<open>
  C10: on the empty map \<open>CheckURLs\<close> calls \<open>os.MkdirTemp\<close> and, when that gave a
  directory, \<open>os.RemoveAll\<close> on it, and nothing else: \<open>DownloadUpgrade\<close> is not called.
  When the directory could be made, \<open>CheckURLs\<close> returns \<open>nil\<close> and leaves the world as
  \<open>os.MkdirTemp\<close> and then \<open>os.RemoveAll\<close> left it. The empty map is refused by
  \<open>ValidateBasic\<close> only.
\<close>

theorem C10_CheckURLs_empty_map:
  "(os_MkdirTemp E '''' ''os-arch-downloads'' (sys_of w) = (Inr tempDir, s) \<longrightarrow>
      CheckURLs E [] d w =
        (None, snd (os_RemoveAll E tempDir
                 ((set_sys s w)\<lparr>trace := trace w @ [MkdirTempCall '''' ''os-arch-downloads'']\<rparr>))))
   \<and> trace (snd (CheckURLs E [] d w)) =
       trace w @ [MkdirTempCall '''' ''os-arch-downloads'']
       @ (case os_MkdirTemp E '''' ''os-arch-downloads'' (sys_of w) of
            (Inl err, s0) \<Rightarrow> []
          | (Inr dir, s0) \<Rightarrow>
              [RemoveAllCall dir
                 (fst (os_RemoveAll E dir
                    ((set_sys s0 w)\<lparr>trace := trace w @ [MkdirTempCall '''' ''os-arch-downloads'']\<rparr>)))])
   \<and> ValidateBasic E [] \<noteq> None"
  by (auto simp: CheckURLs_def call_MkdirTemp_def os_RemoveAll_trace set_sys_def ValidateBasic_def
      split: prod.splits sum.splits)

theorem C10_CheckURLs_empty_map_witness:
  "os_MkdirTemp demo_env '''' ''os-arch-downloads'' (sys_of demo_world)
     = (Inr ''/tmp/os-arch-downloads1'', ([''/tmp/os-arch-downloads1'', ''/tmp''], net demo_world))
   \<and> CheckURLs demo_env [] ''myd'' demo_world =
       (None, demo_world\<lparr>trace := [MkdirTempCall '''' ''os-arch-downloads'',
                                     RemoveAllCall ''/tmp/os-arch-downloads1'' None]\<rparr>)"
proof -
  have h: "os_MkdirTemp demo_env '''' ''os-arch-downloads'' (sys_of demo_world)
     = (Inr ''/tmp/os-arch-downloads1'', ([''/tmp/os-arch-downloads1'', ''/tmp''], net demo_world))"
    by (simp add: demo_env_def demo_MkdirTemp_def sys_of_def demo_world_def)
  have r: "snd (os_RemoveAll demo_env ''/tmp/os-arch-downloads1''
                 ((set_sys ([''/tmp/os-arch-downloads1'', ''/tmp''], net demo_world) demo_world)
                    \<lparr>trace := trace demo_world @ [MkdirTempCall '''' ''os-arch-downloads'']\<rparr>))
      = demo_world\<lparr>trace := [MkdirTempCall '''' ''os-arch-downloads'',
                                RemoveAllCall ''/tmp/os-arch-downloads1'' None]\<rparr>"
    by code_simp
  from C10_CheckURLs_empty_map
         [of demo_env demo_world "''/tmp/os-arch-downloads1''"
             "([''/tmp/os-arch-downloads1'', ''/tmp''], net demo_world)" "''myd''"] h
  have "CheckURLs demo_env [] ''myd'' demo_world =
       (None, demo_world\<lparr>trace := [MkdirTempCall '''' ''os-arch-downloads'',
                                     RemoveAllCall ''/tmp/os-arch-downloads1'' None]\<rparr>)"
    unfolding r by blast
  with h show ?thesis by blast
qed

subsection \<open>Decoding in ParsePlanInfo\<close>

text \<open>
  C8, as the claim states it, at the input \<open>{"foo":"bar"}\<close>: the string does not parse
  as a URL and it does not have the \<open>PlanInfo\<close> shape (there is no field
  \<open>binaries\<close>), yet \<open>ParsePlanInfo\<close> returns a \<open>PlanInfo\<close>, with no binaries, and no
  error: \<open>json.Unmarshal\<close> ignores the fields it does not know and leaves a missing
  field at its zero value.
\<close>

theorem C8_wrong_shape_accepted_counterexample:
  "url_Parse demo_env (strings_TrimSpace demo_env ''{\"foo\":\"bar\"}'')
     = Some (url_Error ''{\"foo\":\"bar\"}'' ''first path segment in URL cannot contain colon'')
   \<and> ParsePlanInfo demo_env ''{\"foo\":\"bar\"}'' demo_world
     = (Inr \<lparr>Binaries = []\<rparr>, demo_world)"
proof -
  have "url_Parse demo_env (strings_TrimSpace demo_env ''{\"foo\":\"bar\"}'')
     = Some (url_Error ''{\"foo\":\"bar\"}'' ''first path segment in URL cannot contain colon'')"
    by code_simp
  moreover
  have "ParsePlanInfo demo_env ''{\"foo\":\"bar\"}'' demo_world
     = (Inr \<lparr>Binaries = []\<rparr>, demo_world)"
    by code_simp
  ultimately show ?thesis by blast
qed

text \<open>
  C8 (amended): \<open>ParsePlanInfo\<close> decodes one string, the trimmed input when that does
  not parse as a URL and the body fetched from it when it does. Whenever
  \<open>json.Unmarshal\<close> rejects that string, with a diagnostic \<open>err\<close>, \<open>ParsePlanInfo\<close> returns
  no \<open>PlanInfo\<close> but the error \<open>could not parse plan info: <message of err>\<close>; whenever
  \<open>json.Unmarshal\<close> accepts it, \<open>ParsePlanInfo\<close> returns the \<open>PlanInfo\<close> decoded and no
  error. Which strings are rejected is decided by \<open>json.Unmarshal\<close>: malformed JSON and
  values of the wrong JSON type are, objects without \<open>binaries\<close> or with other fields
  are not.
\<close>

theorem C8_ParsePlanInfo_decode:
  "(url_Parse E (strings_TrimSpace E infoStr) = Some uerr
      \<and> json_Unmarshal E (strings_TrimSpace E infoStr) = Inl err \<longrightarrow>
        ParsePlanInfo E infoStr w
          = (Inl (Error (''could not parse plan info: '' @ message err) None), w))
   \<and> (url_Parse E (strings_TrimSpace E infoStr) = None
      \<and> DownloadPlanInfoFromURL E (strings_TrimSpace E infoStr) (sys_of w) = (Inr body, s)
      \<and> json_Unmarshal E body = Inl err \<longrightarrow>
        fst (ParsePlanInfo E infoStr w)
          = Inl (Error (''could not parse plan info: '' @ message err) None))
   \<and> (url_Parse E (strings_TrimSpace E infoStr) = Some uerr
      \<and> json_Unmarshal E (strings_TrimSpace E infoStr) = Inr planInfo \<longrightarrow>
        ParsePlanInfo E infoStr w = (Inr planInfo, w))
   \<and> (url_Parse E (strings_TrimSpace E infoStr) = None
      \<and> DownloadPlanInfoFromURL E (strings_TrimSpace E infoStr) (sys_of w) = (Inr body, s)
      \<and> json_Unmarshal E body = Inr planInfo \<longrightarrow>
        fst (ParsePlanInfo E infoStr w) = Inr planInfo)"
  by (simp add: ParsePlanInfo_def ParsePlanInfo_decode_def call_DownloadPlanInfoFromURL_def
      Let_def)

theorem C8_ParsePlanInfo_decode_witness:
  "url_Parse demo_env (strings_TrimSpace demo_env '' {\"binaries\":5} '')
     = Some (url_Error ''{\"binaries\":5}'' ''first path segment in URL cannot contain colon'')
   \<and> json_Unmarshal demo_env (strings_TrimSpace demo_env '' {\"binaries\":5} '')
     = Inl (errors_New (''json: cannot unmarshal number into Go struct field ''
              @ ''PlanInfo.binaries of type planinfo.BinaryDownloadURLMap''))
   \<and> ParsePlanInfo demo_env '' {\"binaries\":5} '' demo_world
     = (Inl (Error (''could not parse plan info: json: cannot unmarshal number into Go ''
              @ ''struct field PlanInfo.binaries of type planinfo.BinaryDownloadURLMap'') None),
        demo_world)
   \<and> url_Parse demo_env (strings_TrimSpace demo_env ''https://example.com/v2.tgz'') = None
   \<and> DownloadPlanInfoFromURL demo_env (strings_TrimSpace demo_env ''https://example.com/v2.tgz'')
        (sys_of demo_world) = (Inr ''myd'', sys_of demo_world)
   \<and> json_Unmarshal demo_env ''myd''
     = Inl (errors_New (''invalid character '' @ [CHR 0x27] @ ''m'' @ [CHR 0x27]
              @ '' looking for beginning of value''))
   \<and> fst (ParsePlanInfo demo_env ''https://example.com/v2.tgz'' demo_world)
     = Inl (Error (''could not parse plan info: invalid character '' @ [CHR 0x27] @ ''m''
              @ [CHR 0x27] @ '' looking for beginning of value'') None)
   \<and> json_Unmarshal demo_env
        (strings_TrimSpace demo_env
           ''{\"binaries\":{\"linux/amd64\":\"https://example.com/v2.tgz\"}}'')
     = Inr \<lparr>Binaries = [(''linux/amd64'', ''https://example.com/v2.tgz'')]\<rparr>
   \<and> ParsePlanInfo demo_env
        ''{\"binaries\":{\"linux/amd64\":\"https://example.com/v2.tgz\"}}'' demo_world
     = (Inr \<lparr>Binaries = [(''linux/amd64'', ''https://example.com/v2.tgz'')]\<rparr>, demo_world)"
proof -
  let ?doc = "''{\"binaries\":{\"linux/amd64\":\"https://example.com/v2.tgz\"}}''"
  let ?p = "\<lparr>Binaries = [(''linux/amd64'', ''https://example.com/v2.tgz'')]\<rparr>"
  let ?je = "errors_New (''json: cannot unmarshal number into Go struct field ''
                @ ''PlanInfo.binaries of type planinfo.BinaryDownloadURLMap'')"
  let ?me = "errors_New (''invalid character '' @ [CHR 0x27] @ ''m'' @ [CHR 0x27]
              @ '' looking for beginning of value'')"
  have a1: "url_Parse demo_env (strings_TrimSpace demo_env '' {\"binaries\":5} '')
     = Some (url_Error ''{\"binaries\":5}'' ''first path segment in URL cannot contain colon'')"
    by code_simp
  have a2: "json_Unmarshal demo_env (strings_TrimSpace demo_env '' {\"binaries\":5} '') = Inl ?je"
    by code_simp
  have b1: "url_Parse demo_env (strings_TrimSpace demo_env ''https://example.com/v2.tgz'') = None"
    by code_simp
  have b2: "DownloadPlanInfoFromURL demo_env
        (strings_TrimSpace demo_env ''https://example.com/v2.tgz'')
        (sys_of demo_world) = (Inr ''myd'', sys_of demo_world)"
    by code_simp
  have b3: "json_Unmarshal demo_env ''myd'' = Inl ?me"
    by code_simp
  have d1: "url_Parse demo_env (strings_TrimSpace demo_env ?doc)
     = Some (url_Error ?doc ''first path segment in URL cannot contain colon'')"
    by code_simp
  have d2: "json_Unmarshal demo_env (strings_TrimSpace demo_env ?doc) = Inr ?p"
    by code_simp
  from C8_ParsePlanInfo_decode [of demo_env "'' {\"binaries\":5} ''" _ ?je demo_world] a1 a2
  have c1: "ParsePlanInfo demo_env '' {\"binaries\":5} '' demo_world
     = (Inl (Error (''could not parse plan info: json: cannot unmarshal number into Go ''
              @ ''struct field PlanInfo.binaries of type planinfo.BinaryDownloadURLMap'') None),
        demo_world)"
    by (simp add: errors_New_def)
  from C8_ParsePlanInfo_decode
         [of demo_env "''https://example.com/v2.tgz''" _ ?me demo_world "''myd''"
             "sys_of demo_world"]
       b1 b2 b3
  have c2: "fst (ParsePlanInfo demo_env ''https://example.com/v2.tgz'' demo_world)
     = Inl (Error (''could not parse plan info: invalid character '' @ [CHR 0x27] @ ''m''
              @ [CHR 0x27] @ '' looking for beginning of value'') None)"
    by (simp add: errors_New_def)
  from C8_ParsePlanInfo_decode [of demo_env ?doc _ _ demo_world _ _ ?p] d1 d2
  have c3: "ParsePlanInfo demo_env ?doc demo_world = (Inr ?p, demo_world)"
    by blast
  from a1 a2 c1 b1 b2 b3 c2 d2 c3 show ?thesis by blast
qed

subsection \<open>ValidateBasic and the order of the iteration\<close>

text \<open>The loop returns \<open>nil\<close> exactly when every entry passes on its own.\<close>

lemma ValidateBasic_range_None_iff:
  "ValidateBasic_range E m = None \<longleftrightarrow> (\<forall>a\<in>set m. ValidateBasic_range E [a] = None)"
  by (induction E m rule: ValidateBasic_range.induct) (auto split: option.splits)

text \<open>An error of the loop is the error of the first entry that does not pass.\<close>

lemma ValidateBasic_range_first:
  "ValidateBasic_range E m = Some e \<Longrightarrow>
   \<exists>n<length m. ValidateBasic_range E [m ! n] = Some e
      \<and> (\<forall>i<n. ValidateBasic_range E [m ! i] = None)"
proof (induction E m rule: ValidateBasic_range.induct)
  case (1 E)
  then show ?case by simp
next
  case (2 E key val rest)
  show ?case
  proof (cases "ValidateBasic_range E [(key, val)]")
    case None
    with "2.prems" have "ValidateBasic_range E rest = Some e"
      by (auto split: if_splits option.splits)
    with "2.IH" None obtain n where n: "n < length rest"
      "ValidateBasic_range E [rest ! n] = Some e"
      "\<forall>i<n. ValidateBasic_range E [rest ! i] = None"
      by (auto split: if_splits option.splits)
    have "\<forall>i<Suc n. ValidateBasic_range E [((key, val) # rest) ! i] = None"
      using n(3) None by (auto simp: less_Suc_eq_0_disj)
    with n(1,2) show ?thesis
      by (intro exI [of _ "Suc n"]) simp
  next
    case (Some e0)
    with "2.prems" have "e0 = e"
      by (auto split: if_splits option.splits)
    with Some show ?thesis
      by (intro exI [of _ 0]) simp
  qed
qed

lemma same_map_same_entries:
  "is_map xs \<Longrightarrow> is_map ys \<Longrightarrow> map_of xs = map_of ys \<Longrightarrow> set xs = set ys"
  by (simp add: is_map_def map_of_inject_set)

text \<open>
  C9, as the claim states it, at a map with two bad keys: the two orders in which a
  \<open>range\<close> may visit its entries give two different errors, each naming the key met
  first.
\<close>

theorem C9_reported_key_counterexample:
  "is_map [(''bogus-key'', ''https://x''), (''other_key'', ''https://y'')]
   \<and> is_map [(''other_key'', ''https://y''), (''bogus-key'', ''https://x'')]
   \<and> map_of [(''bogus-key'', ''https://x''), (''other_key'', ''https://y'')]
     = map_of [(''other_key'', ''https://y''), (''bogus-key'', ''https://x'')]
   \<and> ValidateBasic demo_env [(''bogus-key'', ''https://x''), (''other_key'', ''https://y'')]
     = Some (Error ''invalid os/arch format in key \"bogus-key\"'' None)
   \<and> ValidateBasic demo_env [(''other_key'', ''https://y''), (''bogus-key'', ''https://x'')]
     = Some (Error ''invalid os/arch format in key \"other_key\"'' None)
   \<and> ValidateBasic demo_env [(''bogus-key'', ''https://x''), (''other_key'', ''https://y'')]
     \<noteq> ValidateBasic demo_env [(''other_key'', ''https://y''), (''bogus-key'', ''https://x'')]"
proof -
  let ?a = "(''bogus-key'', ''https://x'')"
  let ?b = "(''other_key'', ''https://y'')"
  have v1: "ValidateBasic demo_env [?a, ?b]
     = Some (Error ''invalid os/arch format in key \"bogus-key\"'' None)"
    by code_simp
  have v2: "ValidateBasic demo_env [?b, ?a]
     = Some (Error ''invalid os/arch format in key \"other_key\"'' None)"
    by code_simp
  have ne: "ValidateBasic demo_env [?a, ?b] \<noteq> ValidateBasic demo_env [?b, ?a]"
    unfolding v1 v2 by simp
  have m: "map_of [?a, ?b] = map_of [?b, ?a]"
    by (auto simp: fun_eq_iff)
  have "is_map [?a, ?b]" and "is_map [?b, ?a]"
    by (simp_all add: is_map_def)
  with m v1 v2 ne show ?thesis by blast
qed

text \<open>
  C9 (amended): \<open>ValidateBasic\<close> is a function of the environment's \<open>url.Parse\<close> and of
  the entries in the order of the iteration; it neither reads nor changes the world.
  On two runs over equal maps, whatever the two orders of iteration: both runs accept
  or both reject; an error returned is the empty-map error or the error of the first
  entry, in the order of that run, that breaks a rule; and when at most one entry of
  the map breaks a rule, both runs return the same result.
\<close>

theorem C9_ValidateBasic_outcome_deterministic:
  assumes "is_map xs" and "is_map ys" and "map_of xs = map_of ys"
  shows "(ValidateBasic E xs = None) = (ValidateBasic E ys = None)
    \<and> (ValidateBasic E xs = Some e \<longrightarrow>
          xs = [] \<and> e = Error ''no \"binaries\" entries found'' None
          \<or> (\<exists>n<length xs. ValidateBasic_range E [xs ! n] = Some e
                \<and> (\<forall>i<n. ValidateBasic_range E [xs ! i] = None)))
    \<and> ((\<forall>a\<in>set xs. \<forall>b\<in>set xs.
           ValidateBasic_range E [a] \<noteq> None \<and> ValidateBasic_range E [b] \<noteq> None \<longrightarrow> a = b)
        \<longrightarrow> ValidateBasic E xs = ValidateBasic E ys)"
proof (intro conjI impI)
  have s: "set xs = set ys"
    using assms by (rule same_map_same_entries)
  have em: "xs = [] \<longleftrightarrow> ys = []"
    using s set_empty [of xs] set_empty [of ys] by simp
  have "(ValidateBasic_range E xs = None) = (ValidateBasic_range E ys = None)"
    unfolding ValidateBasic_range_None_iff [of E xs] ValidateBasic_range_None_iff [of E ys] s ..
  then show oc: "(ValidateBasic E xs = None) = (ValidateBasic E ys = None)"
    using em by (simp add: ValidateBasic_def)
  show "xs = [] \<and> e = Error ''no \"binaries\" entries found'' None
          \<or> (\<exists>n<length xs. ValidateBasic_range E [xs ! n] = Some e
                \<and> (\<forall>i<n. ValidateBasic_range E [xs ! i] = None))"
    if r: "ValidateBasic E xs = Some e"
  proof (cases "xs = []")
    case True
    with r have "e = Error ''no \"binaries\" entries found'' None"
      by (simp add: ValidateBasic_def errors_New_def)
    with True show ?thesis by blast
  next
    case False
    with r have "ValidateBasic_range E xs = Some e"
      by (simp add: ValidateBasic_def)
    from ValidateBasic_range_first [OF this] show ?thesis by blast
  qed
  show "ValidateBasic E xs = ValidateBasic E ys"
    if u: "\<forall>a\<in>set xs. \<forall>b\<in>set xs.
           ValidateBasic_range E [a] \<noteq> None \<and> ValidateBasic_range E [b] \<noteq> None \<longrightarrow> a = b"
  proof (cases "ValidateBasic E xs")
    case None
    with oc show ?thesis by simp
  next
    case (Some e1)
    with oc obtain e2 where e2: "ValidateBasic E ys = Some e2" by auto
    show ?thesis
    proof (cases "xs = []")
      case True
      with em show ?thesis by (simp add: ValidateBasic_def)
    next
      case False
      with em have ne: "ys \<noteq> []" by simp
      from Some False have "ValidateBasic_range E xs = Some e1"
        by (simp add: ValidateBasic_def)
      from ValidateBasic_range_first [OF this] obtain n where
        n: "n < length xs" "ValidateBasic_range E [xs ! n] = Some e1" by blast
      from e2 ne have "ValidateBasic_range E ys = Some e2"
        by (simp add: ValidateBasic_def)
      from ValidateBasic_range_first [OF this] obtain k where
        k: "k < length ys" "ValidateBasic_range E [ys ! k] = Some e2" by blast
      from n(1) have "xs ! n \<in> set xs" by simp
      moreover from k(1) s have "ys ! k \<in> set xs" by simp
      ultimately have "xs ! n = ys ! k"
        using u n(2) k(2) by auto
      with n(2) k(2) have "e1 = e2" by simp
      with Some e2 show ?thesis by simp
    qed
  qed
qed

theorem C9_ValidateBasic_outcome_witness:
  "is_map [(''linux/amd64'', ''https://example.com/v2.tgz''), (''bogus-key'', ''https://x'')]
   \<and> is_map [(''bogus-key'', ''https://x''), (''linux/amd64'', ''https://example.com/v2.tgz'')]
   \<and> map_of [(''linux/amd64'', ''https://example.com/v2.tgz''), (''bogus-key'', ''https://x'')]
     = map_of [(''bogus-key'', ''https://x''), (''linux/amd64'', ''https://example.com/v2.tgz'')]
   \<and> ValidateBasic demo_env
         [(''linux/amd64'', ''https://example.com/v2.tgz''), (''bogus-key'', ''https://x'')]
     = Some (Error ''invalid os/arch format in key \"bogus-key\"'' None)
   \<and> ValidateBasic demo_env
         [(''bogus-key'', ''https://x''), (''linux/amd64'', ''https://example.com/v2.tgz'')]
     = Some (Error ''invalid os/arch format in key \"bogus-key\"'' None)"
proof -
  let ?a = "(''linux/amd64'', ''https://example.com/v2.tgz'')"
  let ?b = "(''bogus-key'', ''https://x'')"
  let ?e = "Error ''invalid os/arch format in key \"bogus-key\"'' None"
  have h1: "is_map [?a, ?b]" by (simp add: is_map_def)
  have h2: "is_map [?b, ?a]" by (simp add: is_map_def)
  have h3: "map_of [?a, ?b] = map_of [?b, ?a]" by (auto simp: fun_eq_iff)
  have v: "ValidateBasic demo_env [?a, ?b] = Some ?e" by code_simp
  have pa: "ValidateBasic_range demo_env [?a] = None" by code_simp
  have u: "\<forall>a\<in>set [?a, ?b]. \<forall>b\<in>set [?a, ?b].
           ValidateBasic_range demo_env [a] \<noteq> None \<and> ValidateBasic_range demo_env [b] \<noteq> None
           \<longrightarrow> a = b"
    using pa by simp
  from C9_ValidateBasic_outcome_deterministic [OF h1 h2 h3, of demo_env ?e] u
  have "ValidateBasic demo_env [?a, ?b] = ValidateBasic demo_env [?b, ?a]"
    by blast
  with v have "ValidateBasic demo_env [?b, ?a] = Some ?e" by simp
  with h1 h2 h3 v show ?thesis by blast
qed

subsection \<open>The matcher and the platform-key pattern\<close>

text \<open>The matcher by derivatives decides membership in the language of the expression.\<close>

lemma nullable_iff: "nullable r \<longleftrightarrow> [] \<in> lang r"
proof (induction r)
  case (Star r)
  show ?case by (auto intro!: exI [of _ "[]"])
qed auto

lemma star_Cons:
  "set ws \<subseteq> L \<Longrightarrow> concat ws = c # w \<Longrightarrow>
   \<exists>u vs. c # u \<in> L \<and> set vs \<subseteq> L \<and> w = u @ concat vs"
proof (induction ws)
  case Nil
  then show ?case by simp
next
  case (Cons x xs)
  show ?case
  proof (cases x)
    case Nil
    with Cons show ?thesis by simp
  next
    case (Cons y ys)
    with Cons.prems have "c # ys \<in> L" "set xs \<subseteq> L" "w = ys @ concat xs"
      by auto
    then show ?thesis by blast
  qed
qed

lemma lang_deriv: "w \<in> lang (deriv c r) \<longleftrightarrow> c # w \<in> lang r"
proof (induction r arbitrary: w)
  case (Seq r s)
  show ?case
  proof
    assume "w \<in> lang (deriv c (Seq r s))"
    then consider (l) u v where "w = u @ v" "u \<in> lang (deriv c r)" "v \<in> lang s"
      | (r) "nullable r" "w \<in> lang (deriv c s)"
      by (auto split: if_splits)
    then show "c # w \<in> lang (Seq r s)"
    proof cases
      case l
      then have "c # w = (c # u) @ v" "c # u \<in> lang r" using Seq.IH(1) by auto
      with l(3) show ?thesis by (simp del: append_Cons) blast
    next
      case r
      then have "c # w = [] @ (c # w)" "[] \<in> lang r" "c # w \<in> lang s"
        using Seq.IH(2) nullable_iff by auto
      then show ?thesis by (simp del: append_Nil) blast
    qed
  next
    assume "c # w \<in> lang (Seq r s)"
    then obtain u v where uv: "c # w = u @ v" "u \<in> lang r" "v \<in> lang s" by auto
    show "w \<in> lang (deriv c (Seq r s))"
    proof (cases u)
      case Nil
      with uv have "nullable r" "w \<in> lang (deriv c s)"
        using Seq.IH(2) nullable_iff by auto
      then show ?thesis by simp
    next
      case (Cons a u')
      with uv have "w = u' @ v" "u' \<in> lang (deriv c r)" using Seq.IH(1) by auto
      with uv(3) show ?thesis by auto
    qed
  qed
next
  case (Star r)
  show ?case
  proof
    assume "w \<in> lang (deriv c (Star r))"
    then obtain u vs where "w = u @ concat vs" "c # u \<in> lang r" "set vs \<subseteq> lang r"
      using Star.IH by auto
    then have "c # w = concat ((c # u) # vs)" "set ((c # u) # vs) \<subseteq> lang r"
      by auto
    then show "c # w \<in> lang (Star r)" by (simp del: concat.simps set_simps) blast
  next
    assume "c # w \<in> lang (Star r)"
    then obtain ws where "set ws \<subseteq> lang r" "concat ws = c # w" by auto
    from star_Cons [OF this] obtain u vs where
      "c # u \<in> lang r" "set vs \<subseteq> lang r" "w = u @ concat vs" by blast
    then show "w \<in> lang (deriv c (Star r))"
      using Star.IH by auto
  qed
qed auto

lemma matches_iff: "matches r s \<longleftrightarrow> s \<in> lang r"
  by (induction s arbitrary: r) (simp_all add: nullable_iff lang_deriv)


lemma lang_Star_Class: "lang (Star (Class rs)) = {w. \<forall>c\<in>set w. in_class rs c}"
proof (intro set_eqI iffI)
  fix w assume "w \<in> lang (Star (Class rs))"
  then obtain ws where ws: "w = concat ws" "set ws \<subseteq> {[c] | c. in_class rs c}" by auto
  then have "\<forall>c\<in>set w. in_class rs c" by auto
  then show "w \<in> {w. \<forall>c\<in>set w. in_class rs c}" by simp
next
  fix w assume "w \<in> {w. \<forall>c\<in>set w. in_class rs c}"
  then have "set (map (\<lambda>c. [c]) w) \<subseteq> lang (Class rs)" by auto
  moreover have "w = concat (map (\<lambda>c. [c]) w)" by (induction w) auto
  ultimately show "w \<in> lang (Star (Class rs))"
    unfolding lang.simps by blast
qed

lemma lang_Plus_Class:
  "lang (Plus (Class rs)) = {w. w \<noteq> [] \<and> (\<forall>c\<in>set w. in_class rs c)}"
proof (intro set_eqI iffI)
  fix w assume "w \<in> lang (Plus (Class rs))"
  then obtain c v where "w = [c] @ v" "in_class rs c" "v \<in> lang (Star (Class rs))"
    unfolding Plus_def lang.simps(6) lang.simps(4) by blast
  then show "w \<in> {w. w \<noteq> [] \<and> (\<forall>c\<in>set w. in_class rs c)}"
    unfolding lang_Star_Class by simp
next
  fix w assume "w \<in> {w. w \<noteq> [] \<and> (\<forall>c\<in>set w. in_class rs c)}"
  then obtain c v where "w = [c] @ v" "in_class rs c" "\<forall>c\<in>set v. in_class rs c"
    by (cases w) auto
  then have "w = [c] @ v" "[c] \<in> lang (Class rs)" "v \<in> lang (Star (Class rs))"
    unfolding lang_Star_Class by simp_all
  then show "w \<in> lang (Plus (Class rs))"
    unfolding Plus_def lang.simps(6) by blast
qed

lemma lang_Plus_alnum: "lang (Plus alnum) = {w. w \<noteq> [] \<and> (\<forall>c\<in>set w. is_alnum c)}"
  by (simp add: alnum_def lang_Plus_Class is_alnum_def)

lemma matches_osArchRx:
  "matches osArchRx key \<longleftrightarrow>
   (\<exists>a b. key = a @ ''/'' @ b \<and> a \<noteq> [] \<and> b \<noteq> []
      \<and> (\<forall>c\<in>set a. is_alnum c) \<and> (\<forall>c\<in>set b. is_alnum c))"
  unfolding matches_iff osArchRx_def lang.simps(6) lang_Plus_alnum lang.simps(3)
  by auto

lemma MatchString_iff:
  "MatchString r s \<longleftrightarrow> (\<exists>p u q. s = p @ u @ q \<and> matches r u)"
proof
  assume "MatchString r s"
  then obtain t u where "suffix t s" "prefix u t" "matches r u"
    unfolding MatchString_def list_ex_iff by (auto simp: in_set_prefixes in_set_suffixes)
  then obtain p q where "s = p @ t" "t = u @ q"
    by (auto simp: prefix_def suffix_def)
  with \<open>matches r u\<close> show "\<exists>p u q. s = p @ u @ q \<and> matches r u" by blast
next
  assume "\<exists>p u q. s = p @ u @ q \<and> matches r u"
  then obtain p u q where s: "s = p @ u @ q" and m: "matches r u" by blast
  have "suffix (u @ q) s" "prefix u (u @ q)"
    using s by (simp_all add: suffix_def)
  with m show "MatchString r s"
    unfolding MatchString_def list_ex_iff
    by (intro bexI [of _ "u @ q"] bexI [of _ u]) simp_all
qed

lemma matches_MatchString: "matches r s \<Longrightarrow> MatchString r s"
  unfolding MatchString_iff
  by (intro exI [of _ "[]"] exI [of _ s]) simp

lemma MatchString_osArchRx:
  "MatchString osArchRx key \<longleftrightarrow>
   (\<exists>p a b q. key = p @ a # CHR ''/'' # b # q \<and> is_alnum a \<and> is_alnum b)"
proof
  assume "MatchString osArchRx key"
  then obtain p u q where k: "key = p @ u @ q" and "matches osArchRx u"
    unfolding MatchString_iff by blast
  then obtain x y where u: "u = x @ ''/'' @ y" "x \<noteq> []" "y \<noteq> []"
    "\<forall>c\<in>set x. is_alnum c" "\<forall>c\<in>set y. is_alnum c"
    unfolding matches_osArchRx by blast
  from u(2) obtain x' a where x: "x = x' @ [a]" by (cases x rule: rev_cases) auto
  from u(3) obtain b y' where y: "y = b # y'" by (cases y) auto
  have "key = (p @ x') @ a # CHR ''/'' # b # (y' @ q)" "is_alnum a" "is_alnum b"
    using k u x y by auto
  then show "\<exists>p a b q. key = p @ a # CHR ''/'' # b # q \<and> is_alnum a \<and> is_alnum b"
    by blast
next
  assume "\<exists>p a b q. key = p @ a # CHR ''/'' # b # q \<and> is_alnum a \<and> is_alnum b"
  then obtain p a b q where k: "key = p @ a # CHR ''/'' # b # q" "is_alnum a" "is_alnum b"
    by blast
  have "matches osArchRx ([a] @ ''/'' @ [b])"
    unfolding matches_osArchRx using k(2,3) by (intro exI [of _ "[a]"] exI [of _ "[b]"]) simp
  moreover have "key = p @ ([a] @ ''/'' @ [b]) @ q" using k(1) by simp
  ultimately show "MatchString osArchRx key"
    unfolding MatchString_iff by blast
qed

lemma ReplaceAll_slash:
  "strings_ReplaceAll s ''/'' ''-'' = map (\<lambda>c. if c = CHR ''/'' then CHR ''-'' else c) s"
proof (induction s)
  case Nil
  show ?case by (simp add: strings_ReplaceAll.simps [of "[]"])
next
  case (Cons x xs)
  show ?case
  proof (cases "x = CHR ''/''")
    case True
    with Cons show ?thesis by (simp add: strings_ReplaceAll.simps [of "CHR ''/'' # xs"])
  next
    case False
    with Cons show ?thesis by (simp add: strings_ReplaceAll.simps [of "x # xs"])
  qed
qed

lemma is_alnum_not_sep: "is_alnum c \<Longrightarrow> c \<noteq> CHR ''/'' \<and> c \<noteq> CHR ''-''"
  by (auto simp: is_alnum_def in_class_def in_range_def)

lemma ReplaceAll_osArch:
  assumes "\<forall>c\<in>set a. is_alnum c" and "\<forall>c\<in>set b. is_alnum c"
  shows "strings_ReplaceAll (a @ CHR ''/'' # b) ''/'' ''-'' = a @ CHR ''-'' # b"
proof -
  have "map (\<lambda>c. if c = CHR ''/'' then CHR ''-'' else c) a = a"
    using assms(1) by (intro map_idI) (auto dest: is_alnum_not_sep)
  moreover have "map (\<lambda>c. if c = CHR ''/'' then CHR ''-'' else c) b = b"
    using assms(2) by (intro map_idI) (auto dest: is_alnum_not_sep)
  ultimately show ?thesis by (simp add: ReplaceAll_slash)
qed

lemma ReplaceAll_inj_on_spec_keys:
  assumes "spec_key_ok k" and "spec_key_ok k'"
    and "strings_ReplaceAll k ''/'' ''-'' = strings_ReplaceAll k' ''/'' ''-''"
  shows "k = k'"
proof -
  have any: "strings_ReplaceAll ''any'' ''/'' ''-'' = ''any''" by (simp add: ReplaceAll_slash)
  have split: "k = ''any'' \<or> (\<exists>a b. k = a @ ''/'' @ b \<and> (\<forall>c\<in>set a. is_alnum c)
      \<and> (\<forall>c\<in>set b. is_alnum c))"
    if "spec_key_ok k" for k
    using that unfolding spec_key_ok_def matches_osArchRx by blast
  have dash: "CHR ''-'' \<notin> set a" if "\<forall>c\<in>set a. is_alnum c" for a
    using that by (auto dest: is_alnum_not_sep)
  from split [OF assms(1)] split [OF assms(2)] show ?thesis
  proof (elim disjE exE conjE)
    assume "k = ''any''" "k' = ''any''"
    then show ?thesis by simp
  next
    fix a b assume "k = ''any''" and k': "k' = a @ ''/'' @ b"
      "\<forall>c\<in>set a. is_alnum c" "\<forall>c\<in>set b. is_alnum c"
    with assms(3) any have "''any'' = a @ CHR ''-'' # b" by (simp add: ReplaceAll_osArch)
    then have "CHR ''-'' \<in> set ''any''" by (simp only: in_set_conv_decomp) blast
    then show ?thesis by simp
  next
    fix a b assume "k' = ''any''" and k: "k = a @ ''/'' @ b"
      "\<forall>c\<in>set a. is_alnum c" "\<forall>c\<in>set b. is_alnum c"
    with assms(3) any have "''any'' = a @ CHR ''-'' # b" by (simp add: ReplaceAll_osArch)
    then have "CHR ''-'' \<in> set ''any''" by (simp only: in_set_conv_decomp) blast
    then show ?thesis by simp
  next
    fix a b a' b' assume k: "k = a @ ''/'' @ b" "\<forall>c\<in>set a. is_alnum c" "\<forall>c\<in>set b. is_alnum c"
      and k': "k' = a' @ ''/'' @ b'" "\<forall>c\<in>set a'. is_alnum c" "\<forall>c\<in>set b'. is_alnum c"
    with assms(3) have "a @ CHR ''-'' # b = a' @ CHR ''-'' # b'"
      by (simp add: ReplaceAll_osArch)
    moreover have "a @ CHR ''-'' # b = a' @ CHR ''-'' # b' \<longleftrightarrow> a = a' \<and> b = b'"
      using dash [OF k(2)] dash [OF k(3)] by (rule append_Cons_eq_iff)
    ultimately have "a = a' \<and> b = b'"
      by blast
    with k(1) k'(1) show ?thesis by simp
  qed
qed


text \<open>
  What the key check of \<open>ValidateBasic\<close> accepts: every key the spec's rule accepts, and
  every other key that has an alphanumeric character on each side of some slash.
\<close>

lemma spec_key_passes_check:
  "spec_key_ok key \<Longrightarrow> key = ''any'' \<or> MatchString osArchRx key"
  by (auto simp: spec_key_ok_def dest: matches_MatchString)

lemma ValidateBasic_range_key_error:
  "key \<noteq> ''any'' \<Longrightarrow> \<not> MatchString osArchRx key \<Longrightarrow>
   ValidateBasic_range E ((key, val) # rest)
     = Some (Error (''invalid os/arch format in key \"'' @ key @ ''\"'') None)"
  by simp

text \<open>
  C1, at the map \<open>{"linux/amd64/v2": "https://example.com/v2.tgz"}\<close>: the key is not
  \<open>any\<close> and the whole key does not match \<open>[a-zA-Z0-9]+/[a-zA-Z0-9]+\<close> (it has two
  slashes), yet \<open>ValidateBasic\<close> returns \<open>nil\<close>: the compiled pattern has no anchors and
  \<open>MatchString\<close> finds the match \<open>linux/amd64\<close> inside the key.
\<close>

theorem C1_unanchored_pattern_accepts_key:
  "\<not> spec_key_ok ''linux/amd64/v2''
   \<and> MatchString osArchRx ''linux/amd64/v2''
   \<and> ValidateBasic demo_env [(''linux/amd64/v2'', ''https://example.com/v2.tgz'')] = None"
proof -
  have "\<not> spec_key_ok ''linux/amd64/v2''" by code_simp
  moreover have "MatchString osArchRx ''linux/amd64/v2''" by code_simp
  moreover
  have "ValidateBasic demo_env [(''linux/amd64/v2'', ''https://example.com/v2.tgz'')] = None"
    by code_simp
  ultimately show ?thesis by blast
qed

text \<open>
  C5, at the map with the two keys \<open>linux/amd64/v2\<close> and \<open>linux/amd64-v2\<close>: both keys
  pass \<open>ValidateBasic\<close>, they are distinct, and replacing the slashes by dashes gives
  the same directory name \<open>linux-amd64-v2\<close> for both, so \<open>CheckURLs\<close> passes the same
  destination to \<open>DownloadUpgrade\<close> twice. On the keys the spec's rule accepts the
  derivation is injective (\<open>ReplaceAll_inj_on_spec_keys\<close>).
\<close>

theorem C5_destination_collision:
  "ValidateBasic demo_env
     [(''linux/amd64/v2'', ''https://example.com/v2.tgz''),
      (''linux/amd64-v2'', ''https://example.com/v2.tgz'')] = None
   \<and> ''linux/amd64/v2'' \<noteq> ''linux/amd64-v2''
   \<and> strings_ReplaceAll ''linux/amd64/v2'' ''/'' ''-'' = ''linux-amd64-v2''
   \<and> strings_ReplaceAll ''linux/amd64-v2'' ''/'' ''-'' = ''linux-amd64-v2''
   \<and> trace (snd (CheckURLs demo_env
          [(''linux/amd64/v2'', ''https://example.com/v2.tgz''),
           (''linux/amd64-v2'', ''https://example.com/v2.tgz'')] ''myd'' demo_world))
     = [MkdirTempCall '''' ''os-arch-downloads'',
        DownloadUpgradeCall ''/tmp/os-arch-downloads1/linux-amd64-v2''
          ''https://example.com/v2.tgz'' ''myd'' None,
        DownloadUpgradeCall ''/tmp/os-arch-downloads1/linux-amd64-v2''
          ''https://example.com/v2.tgz'' ''myd'' None,
        RemoveAllCall ''/tmp/os-arch-downloads1'' None]"
proof -
  have "ValidateBasic demo_env
     [(''linux/amd64/v2'', ''https://example.com/v2.tgz''),
      (''linux/amd64-v2'', ''https://example.com/v2.tgz'')] = None"
    by code_simp
  moreover have "''linux/amd64/v2'' \<noteq> ''linux/amd64-v2''" by simp
  moreover have "strings_ReplaceAll ''linux/amd64/v2'' ''/'' ''-'' = ''linux-amd64-v2''"
    by code_simp
  moreover have "strings_ReplaceAll ''linux/amd64-v2'' ''/'' ''-'' = ''linux-amd64-v2''"
    by code_simp
  moreover have "trace (snd (CheckURLs demo_env
          [(''linux/amd64/v2'', ''https://example.com/v2.tgz''),
           (''linux/amd64-v2'', ''https://example.com/v2.tgz'')] ''myd'' demo_world))
     = [MkdirTempCall '''' ''os-arch-downloads'',
        DownloadUpgradeCall ''/tmp/os-arch-downloads1/linux-amd64-v2''
          ''https://example.com/v2.tgz'' ''myd'' None,
        DownloadUpgradeCall ''/tmp/os-arch-downloads1/linux-amd64-v2''
          ''https://example.com/v2.tgz'' ''myd'' None,
        RemoveAllCall ''/tmp/os-arch-downloads1'' None]"
    by code_simp
  ultimately show ?thesis by blast
qed

subsection \<open>The round trip of ParsePlanInfo\<close>







end
